theory Spec2Isabelle
  imports Main "HOL-Library.Word"
begin

section \<open>Text\<close>

text \<open>
  A JavaScript string is a sequence of UTF-16 code units.  Language labels, message
  commands, CSS class names and shell commands are ASCII literals of the source and
  are kept as \<open>string\<close>; code blobs are \<open>jsstring\<close>.
\<close>

type_synonym codeunit = "16 word"
type_synonym jsstring = "codeunit list"

definition cu :: "char \<Rightarrow> codeunit" where
  "cu c = of_nat (of_char c)"

definition str :: "string \<Rightarrow> jsstring" where
  "str s = map cu s"

text \<open>
  White space and line terminators of ECMAScript: the class \<open>\s\<close> of a regular
  expression and the code units removed by \<open>String.prototype.trim\<close>.
\<close>

definition is_space :: "codeunit \<Rightarrow> bool" where
  "is_space c \<longleftrightarrow>
     c = 0x09 \<or> c = 0x0A \<or> c = 0x0B \<or> c = 0x0C \<or> c = 0x0D \<or> c = 0x20 \<or> c = 0xA0 \<or>
     c = 0x1680 \<or> (0x2000 \<le> c \<and> c \<le> 0x200A) \<or> c = 0x2028 \<or> c = 0x2029 \<or>
     c = 0x202F \<or> c = 0x205F \<or> c = 0x3000 \<or> c = 0xFEFF"

text \<open>The class \<open>\w\<close>: \<open>[A-Za-z0-9_]\<close>.\<close>

definition is_word :: "codeunit \<Rightarrow> bool" where
  "is_word c \<longleftrightarrow>
     (0x30 \<le> c \<and> c \<le> 0x39) \<or> (0x41 \<le> c \<and> c \<le> 0x5A) \<or> c = 0x5F \<or>
     (0x61 \<le> c \<and> c \<le> 0x7A)"

text \<open>The class \<open>.\<close> (no \<open>s\<close> flag): every code unit but the four line terminators.\<close>

definition is_dot :: "codeunit \<Rightarrow> bool" where
  "is_dot c \<longleftrightarrow> \<not> (c = 0x0A \<or> c = 0x0D \<or> c = 0x2028 \<or> c = 0x2029)"

section \<open>Regular expressions of \<open>detectLanguage\<close>\<close>

text \<open>
  The patterns of \<open>languagePatterns\<close> use literals, the classes \<open>\s\<close>, \<open>\w\<close> and
  \<open>.\<close>, concatenation, alternation, \<open>*\<close> and \<open>+\<close>; they have no flags, groups,
  anchors or back references, so \<open>pattern.test(code)\<close> is true exactly when some
  substring of \<open>code\<close> belongs to the language of the pattern.
\<close>

datatype regex =
    Nomatch
  | Eps
  | Chr codeunit
  | Space
  | Word
  | Dot
  | Seq regex regex
  | Alt regex regex
  | Star regex

definition Plus :: "regex \<Rightarrow> regex" where
  "Plus r = Seq r (Star r)"

fun lit :: "string \<Rightarrow> regex" where
  "lit [] = Eps"
| "lit (c # cs) = Seq (Chr (cu c)) (lit cs)"

fun seqs :: "regex list \<Rightarrow> regex" where
  "seqs [] = Eps"
| "seqs [r] = r"
| "seqs (r # rs) = Seq r (seqs rs)"

fun nullable :: "regex \<Rightarrow> bool" where
  "nullable Nomatch = False"
| "nullable Eps = True"
| "nullable (Chr d) = False"
| "nullable Space = False"
| "nullable Word = False"
| "nullable Dot = False"
| "nullable (Seq r s) = (nullable r \<and> nullable s)"
| "nullable (Alt r s) = (nullable r \<or> nullable s)"
| "nullable (Star r) = True"

fun deriv :: "codeunit \<Rightarrow> regex \<Rightarrow> regex" where
  "deriv c Nomatch = Nomatch"
| "deriv c Eps = Nomatch"
| "deriv c (Chr d) = (if c = d then Eps else Nomatch)"
| "deriv c Space = (if is_space c then Eps else Nomatch)"
| "deriv c Word = (if is_word c then Eps else Nomatch)"
| "deriv c Dot = (if is_dot c then Eps else Nomatch)"
| "deriv c (Seq r s) =
     (if nullable r then Alt (Seq (deriv c r) s) (deriv c s) else Seq (deriv c r) s)"
| "deriv c (Alt r s) = Alt (deriv c r) (deriv c s)"
| "deriv c (Star r) = Seq (deriv c r) (Star r)"

text \<open>\<open>match_here r s\<close>: a match of \<open>r\<close> starts at the first code unit of \<open>s\<close>.\<close>

fun match_here :: "regex \<Rightarrow> jsstring \<Rightarrow> bool" where
  "match_here r [] = nullable r"
| "match_here r (c # cs) = (nullable r \<or> match_here (deriv c r) cs)"

text \<open>
  \<open>RegExp.prototype.test\<close> of a pattern without the \<open>g\<close> and \<open>y\<close> flags: the
  search starts at index 0 and tries every start index up to the length of the string.
\<close>

fun test :: "regex \<Rightarrow> jsstring \<Rightarrow> bool" where
  "test r [] = match_here r []"
| "test r (c # cs) = (match_here r (c # cs) \<or> test r cs)"

text \<open>
  The language of a pattern, as sets of strings; \<open>test\<close> is related to it below.
\<close>

inductive_set star :: "'a list set \<Rightarrow> 'a list set" for A :: "'a list set" where
  star_empty: "[] \<in> star A"
| star_more: "u \<in> A \<Longrightarrow> v \<in> star A \<Longrightarrow> u @ v \<in> star A"

fun strings_of :: "regex \<Rightarrow> jsstring set" where
  "strings_of Nomatch = {}"
| "strings_of Eps = {[]}"
| "strings_of (Chr d) = {[d]}"
| "strings_of Space = {[c] | c. is_space c}"
| "strings_of Word = {[c] | c. is_word c}"
| "strings_of Dot = {[c] | c. is_dot c}"
| "strings_of (Seq r s) = {u @ v | u v. u \<in> strings_of r \<and> v \<in> strings_of s}"
| "strings_of (Alt r s) = strings_of r \<union> strings_of s"
| "strings_of (Star r) = star (strings_of r)"

section \<open>\<open>detectLanguage\<close>\<close>

text \<open>
  \<^verbatim>\<open>
  const languagePatterns = {
      'python': /def\s+\w+\s*\(/,
      'java': /public\s+class\s+|void\s+main\s*\(/,
      'cpp': /#include\s+<.*>|int\s+main\s*\(/,
      'javascript': /function\s+\w+\s*\(|const\s+\w+\s*=\s*\(\)\s*=>/,
      'csharp': /using\s+System;|class\s+\w+\s*{|static\s+void\s+Main\s*\(/,
      'ruby': /def\s+\w+|class\s+\w+|module\s+\w+/,
      'php': /<\?php|function\s+\w+\s*\(/,
      'swift': /import\s+Foundation|func\s+\w+\s*\(/,
      'go': /package\s+main|func\s+main\s*\(/,
      'rust': /fn\s+main\s*\(/,
  };
  for (const [lang, pattern] of Object.entries(languagePatterns)) {
      if (pattern.test(code)) { return lang; }
  }
  return 'unknown';
  \<close>
  The keys are not array indices, so \<open>Object.entries\<close> lists them in the order in
  which the object literal writes them: the table is an association list.
\<close>

definition python_pattern :: regex where
  "python_pattern = seqs [lit ''def'', Plus Space, Plus Word, Star Space, lit ''('']"

definition java_pattern :: regex where
  "java_pattern =
     Alt (seqs [lit ''public'', Plus Space, lit ''class'', Plus Space])
         (seqs [lit ''void'', Plus Space, lit ''main'', Star Space, lit ''(''])"

definition cpp_pattern :: regex where
  "cpp_pattern =
     Alt (seqs [lit ''#include'', Plus Space, lit ''<'', Star Dot, lit ''>''])
         (seqs [lit ''int'', Plus Space, lit ''main'', Star Space, lit ''(''])"

definition javascript_pattern :: regex where
  "javascript_pattern =
     Alt (seqs [lit ''function'', Plus Space, Plus Word, Star Space, lit ''(''])
         (seqs [lit ''const'', Plus Space, Plus Word, Star Space, lit ''='', Star Space,
                lit ''()'', Star Space, lit ''=>''])"

definition csharp_pattern :: regex where
  "csharp_pattern =
     Alt (seqs [lit ''using'', Plus Space, lit ''System;''])
    (Alt (seqs [lit ''class'', Plus Space, Plus Word, Star Space, lit ''{''])
         (seqs [lit ''static'', Plus Space, lit ''void'', Plus Space, lit ''Main'',
                Star Space, lit ''('']))"

definition ruby_pattern :: regex where
  "ruby_pattern =
     Alt (seqs [lit ''def'', Plus Space, Plus Word])
    (Alt (seqs [lit ''class'', Plus Space, Plus Word])
         (seqs [lit ''module'', Plus Space, Plus Word]))"

definition php_pattern :: regex where
  "php_pattern =
     Alt (lit ''<?php'')
         (seqs [lit ''function'', Plus Space, Plus Word, Star Space, lit ''(''])"

definition swift_pattern :: regex where
  "swift_pattern =
     Alt (seqs [lit ''import'', Plus Space, lit ''Foundation''])
         (seqs [lit ''func'', Plus Space, Plus Word, Star Space, lit ''(''])"

definition go_pattern :: regex where
  "go_pattern =
     Alt (seqs [lit ''package'', Plus Space, lit ''main''])
         (seqs [lit ''func'', Plus Space, lit ''main'', Star Space, lit ''(''])"

definition rust_pattern :: regex where
  "rust_pattern = seqs [lit ''fn'', Plus Space, lit ''main'', Star Space, lit ''('']"

definition languagePatterns :: "(string \<times> regex) list" where
  "languagePatterns =
     [(''python'', python_pattern),
      (''java'', java_pattern),
      (''cpp'', cpp_pattern),
      (''javascript'', javascript_pattern),
      (''csharp'', csharp_pattern),
      (''ruby'', ruby_pattern),
      (''php'', php_pattern),
      (''swift'', swift_pattern),
      (''go'', go_pattern),
      (''rust'', rust_pattern)]"

text \<open>The \<open>for\<close> loop over the entries, returning at the first pattern that matches.\<close>

fun first_match :: "(string \<times> regex) list \<Rightarrow> jsstring \<Rightarrow> string" where
  "first_match [] code = ''unknown''"
| "first_match ((lang, pattern) # entries) code =
     (if test pattern code then lang else first_match entries code)"

definition detectLanguage :: "jsstring \<Rightarrow> string" where
  "detectLanguage code = first_match languagePatterns code"

section \<open>\<open>formatCode\<close>\<close>

datatype error = InputError | TypeError | ToolError

text \<open>
  \<^verbatim>\<open>
  async function formatCode(code: string, language: string): Promise<string> {
      try {
          if (language === "javascript" || language === "typescript") {
              return await prettier.format(code, { parser: "babel" });
          }
          return code;
      } catch (error) {
          return code;
      }
  }
  \<close>
  \<open>prettier.format\<close> is the third-party formatter: a parameter that returns the
  formatted text or throws.
\<close>

definition formatCode :: "(jsstring \<Rightarrow> error + jsstring) \<Rightarrow> jsstring \<Rightarrow> string \<Rightarrow> jsstring" where
  "formatCode prettier_format code language =
     (if language = ''javascript'' \<or> language = ''typescript'' then
        (case prettier_format code of Inr formatted \<Rightarrow> formatted | Inl e \<Rightarrow> code)
      else code)"

text \<open>\<open>String.prototype.trim\<close>: white space and line terminators go from both ends.\<close>

definition trim :: "jsstring \<Rightarrow> jsstring" where
  "trim s = rev (dropWhile is_space (rev (dropWhile is_space s)))"

text \<open>
  The variant that shells out: the \<open>switch\<close> that picks the command line, \<open>None\<close>
  for its \<open>default\<close> branch.
\<close>

definition formatter_command :: "string \<Rightarrow> string option" where
  "formatter_command language =
     (if language = ''javascript'' \<or> language = ''typescript'' then
        Some (''npx prettier --parser '' @ language @ '' --stdin-filepath temp.'' @ language)
      else if language = ''python'' then Some ''black -q -''
      else if language = ''java'' then Some ''google-java-format -''
      else if language = ''cpp'' \<or> language = ''c'' \<or> language = ''c++'' then Some ''clang-format''
      else if language = ''csharp'' then Some ''dotnet format --folder''
      else if language = ''ruby'' then Some ''ruby -c''
      else if language = ''php'' then Some ''php -l''
      else if language = ''swift'' then Some ''swift-format format --stdin''
      else if language = ''go'' then Some ''gofmt''
      else if language = ''rust'' then Some ''rustfmt''
      else None)"

text \<open>
  \<^verbatim>\<open>
  /**
   * Formats the given code snippet based on the programming language.
   * @returns The formatted code snippet.
   */
  // Format code using appropriate formatter
  async function formatCode(code: string, language: string): Promise<string> {
      return new Promise((resolve) => {
          let command = "";
          switch (language) {
              ...
              default:
                  resolve(code); // Return unformatted code if no formatter is available
                  return;
          }
          const child = exec(command, (error, stdout) => {
              if (error) { resolve(code); }
              else { ...; resolve(stdout.trim()); }
          });
          if (child.stdin) { child.stdin.write(code); child.stdin.end(); }
      });
  }
  \<close>
  \<open>exec command stdin\<close> stands for \<open>child_process.exec\<close> with the code written to
  the standard input of the child: \<open>Inl\<close> when the callback gets an error, else the
  standard output.  The promise resolves with the code itself in the \<open>default\<close> branch
  and on an error, and with \<open>stdout.trim()\<close> otherwise.
\<close>

definition formatCode_exec :: "(string \<Rightarrow> jsstring \<Rightarrow> error + jsstring) \<Rightarrow> jsstring \<Rightarrow> string \<Rightarrow> jsstring" where
  "formatCode_exec exec code language =
     (case formatter_command language of
        None \<Rightarrow> code
      | Some command \<Rightarrow>
          (case exec command code of Inl e \<Rightarrow> code | Inr stdout \<Rightarrow> trim stdout))"

section \<open>The review surface\<close>

subsection \<open>The script of the webview\<close>

text \<open>
  The element \<open>#optimized-code\<close> holds text nodes and \<open>span\<close> elements; a span has
  its \<open>textContent\<close> and its \<open>classList\<close>.  \<open>querySelector\<close> returns null when the
  page has no such element (the page is built without it when the optimized code equals
  the original), which is \<open>None\<close> here.
\<close>

datatype node = TextNode jsstring | SpanNode jsstring "string list"

fun node_text :: "node \<Rightarrow> jsstring" where
  "node_text (TextNode t) = t"
| "node_text (SpanNode t classes) = t"

record webview =
  original :: jsstring
  optimized_code :: "node list option"

text \<open>The text an element shows (\<open>innerText\<close>), every child being rendered.\<close>

definition innerText :: "node list \<Rightarrow> jsstring" where
  "innerText children = concat (map node_text children)"

record message =
  msg_command :: "string option"
  msg_code :: "jsstring option"

text \<open>
  A message is the object that \<open>postMessage\<close> sends; a field that is absent (or
  not a string) is \<open>None\<close>.
  \<^verbatim>\<open>
  function accept() {
      const optimizedCode = document.querySelector("#optimized-code").innerText;
      vscode.postMessage({ command: "accept", code: optimizedCode });
  }
  function reject() {
      vscode.postMessage({ command: "reject" });
  }
  \<close>
\<close>

definition accept :: "webview \<Rightarrow> error + message" where
  "accept w =
     (case optimized_code w of
        None \<Rightarrow> Inl TypeError
      | Some children \<Rightarrow> Inr \<lparr>msg_command = Some ''accept'', msg_code = Some (innerText children)\<rparr>)"

definition reject :: message where
  "reject = \<lparr>msg_command = Some ''reject'', msg_code = None\<rparr>"

subsection \<open>The extension host\<close>

text \<open>
  The handler registered with \<open>panel.webview.onDidReceiveMessage\<close> closes over
  \<open>userCode\<close> (the text of the document when the command ran) and \<open>code\<close> (the
  optimized code that \<open>getOptimizedCode\<close> returned).  The host state keeps the text of
  the document, the workspace edits applied so far (start, end, new text), the messages
  shown and the state of the panel; \<open>applyEdit\<close> applies the edit it is given.
\<close>

datatype panel = NoPanel | Open jsstring jsstring | Disposed

record host =
  editor_active :: bool
  document :: jsstring
  applied_edits :: "(nat \<times> nat \<times> jsstring) list"
  information :: "string list"
  errors :: "string list"
  panel :: panel

text \<open>\<open>document.positionAt(offset)\<close> adjusts an offset beyond the text to its end.\<close>

definition positionAt :: "jsstring \<Rightarrow> nat \<Rightarrow> nat" where
  "positionAt doc offset = min offset (length doc)"

definition replace_range :: "jsstring \<Rightarrow> nat \<Rightarrow> nat \<Rightarrow> jsstring \<Rightarrow> jsstring" where
  "replace_range doc start stop new_text = take start doc @ new_text @ drop stop doc"

text \<open>
  \<^verbatim>\<open>
  panel.webview.onDidReceiveMessage(async (message) => {
      switch (message.command) {
          case 'accept':
              const edit = new vscode.WorkspaceEdit();
              const document = editor.document;
              const fullRange = new vscode.Range(
                  document.positionAt(0), document.positionAt(userCode.length));
              edit.replace(document.uri, fullRange, code);
              await vscode.workspace.applyEdit(edit);
              vscode.window.showInformationMessage("Optimized code accepted!");
              panel.dispose();
              break;
          case 'reject':
              vscode.window.showInformationMessage("Optimized code rejected.");
              panel.dispose();
              break;
      }
  });
  \<close>
\<close>

definition onDidReceiveMessage :: "jsstring \<Rightarrow> jsstring \<Rightarrow> message \<Rightarrow> host \<Rightarrow> host" where
  "onDidReceiveMessage userCode code message h =
     (if msg_command message = Some ''accept'' then
        (let start = positionAt (document h) 0;
             stop = positionAt (document h) (length userCode)
         in h\<lparr>document := replace_range (document h) start stop code,
              applied_edits := applied_edits h @ [(start, stop, code)],
              information := information h @ [''Optimized code accepted!''],
              panel := Disposed\<rparr>)
      else if msg_command message = Some ''reject'' then
        h\<lparr>information := information h @ [''Optimized code rejected.''],
          panel := Disposed\<rparr>
      else h)"

text \<open>A message reaches the handler of the panel that is open, if there is one.\<close>

definition deliver :: "message \<Rightarrow> host \<Rightarrow> host" where
  "deliver message h =
     (case panel h of
        Open userCode code \<Rightarrow> onDidReceiveMessage userCode code message h
      | _ \<Rightarrow> h)"

text \<open>
  \<^verbatim>\<open>
  const editor = vscode.window.activeTextEditor;
  if (!editor) {
      vscode.window.showErrorMessage("No active editor found.");
      return;
  }
  const userCode = editor.document.getText();
  try {
      ...
      const { code, explanation } = await getOptimizedCode(userCode);
      const panel = vscode.window.createWebviewPanel(...);
      panel.webview.html = getWebviewContent(userCode, code, explanation, stylesUri, scriptUri);
      panel.webview.onDidReceiveMessage(async (message) => { ... });
  } catch (error) {
      const errorMessage = (error as Error).message;
      vscode.window.showErrorMessage(`Failed to optimize code: ${errorMessage}`);
  }
  \<close>
  The command \<open>dsxpert.optimizeCode\<close>: without an active editor it reports that and
  returns; \<open>getOptimizedCode\<close> (the external service) returns the optimized code and
  its explanation or throws an \<open>Error\<close> with a message, and the \<open>catch\<close> shows it; on
  success the panel is created with the handler above.
\<close>

definition optimizeCode :: "(jsstring \<Rightarrow> string + jsstring \<times> jsstring) \<Rightarrow> host \<Rightarrow> host" where
  "optimizeCode getOptimizedCode h =
     (if \<not> editor_active h then h\<lparr>errors := errors h @ [''No active editor found.'']\<rparr>
      else
        (let userCode = document h
         in case getOptimizedCode userCode of
              Inl errorMessage \<Rightarrow>
                h\<lparr>errors := errors h @ [''Failed to optimize code: '' @ errorMessage]\<rparr>
            | Inr (code, explanation) \<Rightarrow> h\<lparr>panel := Open userCode code\<rparr>))"

section \<open>The line diff\<close>

text \<open>
  \<open>media/diff.js\<close> forwards \<open>diffLines\<close> to the npm package \<open>diff\<close>
  (\<open>"diff": "^7.0.0"\<close> in \<open>package.json\<close>), whose source is not part of the
  repository.  Its result is an array of change objects with the fields \<open>value\<close>,
  \<open>added\<close> and \<open>removed\<close>, which \<open>highlightChanges\<close> reads.
\<close>

datatype kind = Unchanged | Added | Removed

record change =
  part_value :: jsstring
  added :: bool
  removed :: bool

definition mk_change :: "kind \<Rightarrow> jsstring \<Rightarrow> change" where
  "mk_change k v = \<lparr>part_value = v, added = (k = Added), removed = (k = Removed)\<rparr>"

text \<open>
  The kind of a segment, read the way \<open>highlightChanges\<close> reads it: \<open>added\<close>
  first, then \<open>removed\<close>, else unchanged.
\<close>

definition kind_of :: "change \<Rightarrow> kind" where
  "kind_of part = (if added part then Added else if removed part then Removed else Unchanged)"

text \<open>
  Modelled from the spec: the lines of a text, the unit of comparison of the line diff
  of the package \<open>diff\<close> (absent from the repository).  A line ends after its line
  feed and keeps it, as in the spec's scenario \<open>unchanged("x = 1\n")\<close>; the last line
  may lack one; the empty text has no line.
\<close>

fun tokenize :: "jsstring \<Rightarrow> jsstring list" where
  "tokenize [] = []"
| "tokenize (c # cs) =
     (if c = 0x0A then [c] # tokenize cs
      else (case tokenize cs of [] \<Rightarrow> [[c]] | l # ls \<Rightarrow> (c # l) # ls))"

text \<open>
  Modelled from the spec: the length of a longest common subsequence of two sequences
  of lines, by which the line diff of the package \<open>diff\<close> (absent from the
  repository) chooses the lines it keeps.
\<close>

fun lcs_length :: "'a list \<Rightarrow> 'a list \<Rightarrow> nat" where
  "lcs_length [] ys = 0"
| "lcs_length (x # xs) [] = 0"
| "lcs_length (x # xs) (y # ys) =
     (if x = y then Suc (lcs_length xs ys)
      else max (lcs_length xs (y # ys)) (lcs_length (x # xs) ys))"

text \<open>
  Modelled from the spec: the line-oriented longest-common-subsequence diff of the
  package \<open>diff\<close> (absent from the repository).  It labels every line as matching
  (unchanged), present only in the original (removed) or present only in the modified
  text (added), along a longest common subsequence.
\<close>

fun edit_script :: "'a list \<Rightarrow> 'a list \<Rightarrow> (kind \<times> 'a) list" where
  "edit_script [] ys = map (Pair Added) ys"
| "edit_script (x # xs) [] = map (Pair Removed) (x # xs)"
| "edit_script (x # xs) (y # ys) =
     (if x = y then (Unchanged, x) # edit_script xs ys
      else if lcs_length (x # xs) ys \<le> lcs_length xs (y # ys)
           then (Removed, x) # edit_script xs (y # ys)
           else (Added, y) # edit_script (x # xs) ys)"

text \<open>
  Modelled from the spec: the partition into maximal runs.  Consecutive lines of one
  kind are joined into one segment.
\<close>

fun build_values :: "(kind \<times> jsstring) list \<Rightarrow> change list" where
  "build_values [] = []"
| "build_values ((k, l) # rest) =
     (case build_values rest of
        [] \<Rightarrow> [mk_change k l]
      | part # parts \<Rightarrow>
          (if kind_of part = k then part\<lparr>part_value := l @ part_value part\<rparr> # parts
           else mk_change k l # part # parts))"

text \<open>
  Modelled from the spec: \<open>computeDiff(original, modified)\<close>, the operation that
  \<open>Diff.diffLines\<close> of the package \<open>diff\<close> (absent from the repository) implements.
\<close>

definition computeDiff :: "jsstring \<Rightarrow> jsstring \<Rightarrow> change list" where
  "computeDiff original_text modified_text =
     build_values (edit_script (tokenize original_text) (tokenize modified_text))"

text \<open>A value handed to the diff is a string or not (for example \<open>undefined\<close>).\<close>

datatype jsvalue = JSUndefined | JSString jsstring

text \<open>
  Modelled from the spec: the failure semantics of \<open>Diff.diffLines\<close> of the package
  \<open>diff\<close> (absent from the repository): on an input that is not text the operation
  fails with an \<open>InputError\<close>; on two texts it returns the segments.
\<close>

fun diffLines :: "jsvalue \<Rightarrow> jsvalue \<Rightarrow> error + change list" where
  "diffLines (JSString oldStr) (JSString newStr) = Inr (computeDiff oldStr newStr)"
| "diffLines oldStr newStr = Inl InputError"

section \<open>\<open>highlightChanges\<close>\<close>

text \<open>
  The script of the webview, with \<open>window.Diff\<close> as \<open>media/diff.js\<close> installs it.
  \<^verbatim>\<open>
  function highlightChanges(originalCode, optimizedCode) {
      const diff = Diff.diffLines(originalCode, optimizedCode);
      const optimizedCodeElement = document.querySelector("#optimized-code");
      optimizedCodeElement.innerHTML = "";
      diff.forEach((part) => {
          const span = document.createElement("span");
          span.textContent = part.value;
          if (part.added) { span.classList.add("hl-added"); }
          else if (part.removed) { span.classList.add("hl-removed"); }
          else { span.classList.add("hl-unchanged"); }
          optimizedCodeElement.appendChild(span);
      });
  }
  \<close>
\<close>

definition highlight_class :: "change \<Rightarrow> string" where
  "highlight_class part =
     (if added part then ''hl-added''
      else if removed part then ''hl-removed''
      else ''hl-unchanged'')"

text \<open>The body of the \<open>forEach\<close>: one new span, appended to the element.\<close>

definition appendPart :: "node list \<Rightarrow> change \<Rightarrow> node list" where
  "appendPart children part = children @ [SpanNode (part_value part) [highlight_class part]]"

text \<open>
  The render step: everything \<open>highlightChanges\<close> does once it has the segments.
  Setting \<open>innerHTML\<close> of a null element throws a \<open>TypeError\<close>.
\<close>

definition render :: "change list \<Rightarrow> webview \<Rightarrow> error + webview" where
  "render diff w =
     (case optimized_code w of
        None \<Rightarrow> Inl TypeError
      | Some children \<Rightarrow> Inr (w\<lparr>optimized_code := Some (foldl appendPart [] diff)\<rparr>))"

definition highlightChanges :: "jsvalue \<Rightarrow> jsvalue \<Rightarrow> webview \<Rightarrow> error + webview" where
  "highlightChanges originalCode optimizedCode w =
     (case diffLines originalCode optimizedCode of
        Inl e \<Rightarrow> Inl e
      | Inr diff \<Rightarrow> render diff w)"

section \<open>Sample states\<close>

text \<open>
  A review cycle on the document \<open>x = 1\<close> for which the service proposed \<open>x = 2\<close>:
  the host before the command, the host with the panel open, and a view whose
  displayed text was changed to \<open>x = 3\<close> after rendering.
\<close>

definition idle_host :: host where
  "idle_host = \<lparr>editor_active = True, document = str ''x = 1'', applied_edits = [],
     information = [], errors = [], panel = NoPanel\<rparr>"

definition review_host :: host where
  "review_host = \<lparr>editor_active = True, document = str ''x = 1'', applied_edits = [],
     information = [], errors = [], panel = Open (str ''x = 1'') (str ''x = 2'')\<rparr>"

definition edited_view :: webview where
  "edited_view = \<lparr>original = str ''x = 1'', optimized_code = Some [TextNode (str ''x = 3'')]\<rparr>"

definition fresh_view :: webview where
  "fresh_view = \<lparr>original = str ''x = 1'', optimized_code = Some [TextNode (str ''x = 2'')]\<rparr>"

text \<open>
  The commands of a machine that has Ruby and nothing else of the table, run on a
  program without syntax errors: \<open>ruby -c\<close> checks the syntax and prints
  \<open>Syntax OK\<close> and a line feed; every other command fails.
\<close>

definition syntax_checkers :: "string \<Rightarrow> jsstring \<Rightarrow> error + jsstring" where
  "syntax_checkers command stdin =
     (if command = ''ruby -c'' then Inr (str ''Syntax OK'' @ [0x0A]) else Inl ToolError)"

section \<open>The matcher and the language of a pattern\<close>

lemma star_cons_iff:
  "c # w \<in> star A \<longleftrightarrow> (\<exists>u v. w = u @ v \<and> c # u \<in> A \<and> v \<in> star A)"
proof
  assume "c # w \<in> star A"
  then show "\<exists>u v. w = u @ v \<and> c # u \<in> A \<and> v \<in> star A"
  proof (induction "c # w" rule: star.induct)
    case (star_more u v)
    show ?case
    proof (cases u)
      case Nil
      with star_more show ?thesis by simp
    next
      case (Cons d u')
      with star_more.hyps show ?thesis by auto
    qed
  qed
next
  assume "\<exists>u v. w = u @ v \<and> c # u \<in> A \<and> v \<in> star A"
  then obtain u v where "w = u @ v" "c # u \<in> A" "v \<in> star A" by blast
  then have "(c # u) @ v \<in> star A" by (intro star_more)
  with \<open>w = u @ v\<close> show "c # w \<in> star A" by simp
qed

lemma nullable_iff: "nullable r \<longleftrightarrow> [] \<in> strings_of r"
  by (induction r) (auto intro: star_empty)

lemma cons_in_Seq:
  "c # w \<in> strings_of (Seq r s) \<longleftrightarrow>
     ([] \<in> strings_of r \<and> c # w \<in> strings_of s) \<or> (\<exists>u v. w = u @ v \<and> c # u \<in> strings_of r \<and> v \<in> strings_of s)"
proof
  assume "c # w \<in> strings_of (Seq r s)"
  then obtain u v where uv: "c # w = u @ v" "u \<in> strings_of r" "v \<in> strings_of s" by auto
  show "([] \<in> strings_of r \<and> c # w \<in> strings_of s) \<or> (\<exists>u v. w = u @ v \<and> c # u \<in> strings_of r \<and> v \<in> strings_of s)"
  proof (cases u)
    case Nil
    with uv show ?thesis by simp
  next
    case (Cons d u')
    with uv have "w = u' @ v \<and> c # u' \<in> strings_of r \<and> v \<in> strings_of s" by simp
    then show ?thesis by blast
  qed
next
  assume "([] \<in> strings_of r \<and> c # w \<in> strings_of s) \<or> (\<exists>u v. w = u @ v \<and> c # u \<in> strings_of r \<and> v \<in> strings_of s)"
  then show "c # w \<in> strings_of (Seq r s)"
  proof
    assume "[] \<in> strings_of r \<and> c # w \<in> strings_of s"
    then have "c # w = [] @ (c # w) \<and> [] \<in> strings_of r \<and> c # w \<in> strings_of s" by simp
    then show ?thesis unfolding strings_of.simps by blast
  next
    assume "\<exists>u v. w = u @ v \<and> c # u \<in> strings_of r \<and> v \<in> strings_of s"
    then obtain u v where "w = u @ v" "c # u \<in> strings_of r" "v \<in> strings_of s" by blast
    then have "c # w = (c # u) @ v \<and> c # u \<in> strings_of r \<and> v \<in> strings_of s" by simp
    then show ?thesis unfolding strings_of.simps by blast
  qed
qed

lemma deriv_Seq_lang:
  "w \<in> strings_of (deriv c (Seq r s)) \<longleftrightarrow>
     (nullable r \<and> w \<in> strings_of (deriv c s)) \<or>
     (\<exists>u v. w = u @ v \<and> u \<in> strings_of (deriv c r) \<and> v \<in> strings_of s)"
  by (cases "nullable r") auto

lemma deriv_iff: "w \<in> strings_of (deriv c r) \<longleftrightarrow> c # w \<in> strings_of r"
proof (induction r arbitrary: w)
  case (Seq r s)
  have "w \<in> strings_of (deriv c (Seq r s)) \<longleftrightarrow>
     (nullable r \<and> w \<in> strings_of (deriv c s)) \<or>
     (\<exists>u v. w = u @ v \<and> u \<in> strings_of (deriv c r) \<and> v \<in> strings_of s)"
    by (rule deriv_Seq_lang)
  also have "\<dots> \<longleftrightarrow> ([] \<in> strings_of r \<and> c # w \<in> strings_of s) \<or>
     (\<exists>u v. w = u @ v \<and> c # u \<in> strings_of r \<and> v \<in> strings_of s)"
    by (simp only: Seq.IH nullable_iff)
  also have "\<dots> \<longleftrightarrow> c # w \<in> strings_of (Seq r s)"
    by (simp only: cons_in_Seq)
  finally show ?case .
next
  case (Alt r s)
  then show ?case by simp
next
  case (Star r)
  have "w \<in> strings_of (deriv c (Star r)) \<longleftrightarrow>
          (\<exists>u v. w = u @ v \<and> u \<in> strings_of (deriv c r) \<and> v \<in> star (strings_of r))"
    by simp
  also have "\<dots> \<longleftrightarrow> (\<exists>u v. w = u @ v \<and> c # u \<in> strings_of r \<and> v \<in> star (strings_of r))"
    by (simp only: Star.IH)
  also have "\<dots> \<longleftrightarrow> c # w \<in> star (strings_of r)"
    by (simp only: star_cons_iff)
  finally show ?case by simp
qed auto

lemma match_here_iff: "match_here r s \<longleftrightarrow> (\<exists>u v. s = u @ v \<and> u \<in> strings_of r)"
proof (induction r s rule: match_here.induct)
  case (1 r)
  then show ?case by (simp add: nullable_iff)
next
  case (2 r c cs)
  show ?case
  proof
    assume "match_here r (c # cs)"
    then consider "nullable r" | "match_here (deriv c r) cs" by auto
    then show "\<exists>u v. c # cs = u @ v \<and> u \<in> strings_of r"
    proof cases
      case 1
      then have "c # cs = [] @ (c # cs) \<and> [] \<in> strings_of r" by (simp add: nullable_iff)
      then show ?thesis by blast
    next
      case 2
      with "2.IH" obtain u v where "cs = u @ v" "u \<in> strings_of (deriv c r)" by blast
      then have "c # cs = (c # u) @ v \<and> c # u \<in> strings_of r" by (simp add: deriv_iff)
      then show ?thesis by blast
    qed
  next
    assume "\<exists>u v. c # cs = u @ v \<and> u \<in> strings_of r"
    then obtain u v where uv: "c # cs = u @ v" "u \<in> strings_of r" by blast
    show "match_here r (c # cs)"
    proof (cases u)
      case Nil
      with uv have "nullable r" by (simp add: nullable_iff)
      then show ?thesis by simp
    next
      case (Cons d u')
      with uv have "cs = u' @ v" "u' \<in> strings_of (deriv c r)" by (simp_all add: deriv_iff)
      with "2.IH" have "match_here (deriv c r) cs" by blast
      then show ?thesis by simp
    qed
  qed
qed

text \<open>
  \<open>test\<close> holds exactly when some substring of the string is in the language of the
  pattern.
\<close>

lemma test_iff_substring: "test r s \<longleftrightarrow> (\<exists>p u v. s = p @ u @ v \<and> u \<in> strings_of r)"
proof (induction s)
  case Nil
  then show ?case by (simp add: nullable_iff)
next
  case (Cons c cs)
  show ?case
  proof
    assume "test r (c # cs)"
    then consider "match_here r (c # cs)" | "test r cs" by auto
    then show "\<exists>p u v. c # cs = p @ u @ v \<and> u \<in> strings_of r"
    proof cases
      case 1
      then obtain u v where "c # cs = u @ v" "u \<in> strings_of r" using match_here_iff by blast
      then have "c # cs = [] @ u @ v \<and> u \<in> strings_of r" by simp
      then show ?thesis by blast
    next
      case 2
      with Cons.IH obtain p u v where "cs = p @ u @ v" "u \<in> strings_of r" by blast
      then have "c # cs = (c # p) @ u @ v \<and> u \<in> strings_of r" by simp
      then show ?thesis by blast
    qed
  next
    assume "\<exists>p u v. c # cs = p @ u @ v \<and> u \<in> strings_of r"
    then obtain p u v where puv: "c # cs = p @ u @ v" "u \<in> strings_of r" by blast
    show "test r (c # cs)"
    proof (cases p)
      case Nil
      with puv have "match_here r (c # cs)" using match_here_iff by auto
      then show ?thesis by simp
    next
      case (Cons d p')
      with puv have "cs = p' @ u @ v" by simp
      with puv(2) Cons.IH have "test r cs" by blast
      then show ?thesis by simp
    qed
  qed
qed

section \<open>\<open>detectLanguage\<close>: the first matching pattern\<close>

lemma first_match_range:
  "first_match entries code \<in> insert ''unknown'' (fst ` set entries)"
  by (induction entries code rule: first_match.induct) auto

lemma first_match_first:
  "i < length entries \<Longrightarrow> test (snd (entries ! i)) code \<Longrightarrow>
   (\<forall>j<i. \<not> test (snd (entries ! j)) code) \<Longrightarrow>
   first_match entries code = fst (entries ! i)"
proof (induction entries code arbitrary: i rule: first_match.induct)
  case (1 code)
  then show ?case by simp
next
  case (2 lang pattern entries code)
  show ?case
  proof (cases i)
    case 0
    with "2.prems" show ?thesis by simp
  next
    case (Suc k)
    with "2.prems" have no: "\<not> test pattern code" by fastforce
    have "first_match entries code = fst (entries ! k)"
    proof (rule "2.IH" [OF no])
      show "k < length entries" using "2.prems" Suc by simp
      show "test (snd (entries ! k)) code" using "2.prems" Suc by simp
      show "\<forall>j<k. \<not> test (snd (entries ! j)) code"
      proof (intro allI impI)
        fix j assume "j < k"
        then have "Suc j < i" using Suc by simp
        with "2.prems"(3) have "\<not> test (snd (((lang, pattern) # entries) ! Suc j)) code" by blast
        then show "\<not> test (snd (entries ! j)) code" by simp
      qed
    qed
    with no Suc show ?thesis by simp
  qed
qed

lemma first_match_none:
  "(\<forall>i<length entries. \<not> test (snd (entries ! i)) code) \<Longrightarrow>
   first_match entries code = ''unknown''"
proof (induction entries code rule: first_match.induct)
  case (1 code)
  then show ?case by simp
next
  case (2 lang pattern entries code)
  from "2.prems" have "\<not> test (snd (((lang, pattern) # entries) ! 0)) code" by blast
  then have no: "\<not> test pattern code" by simp
  have "\<forall>i<length entries. \<not> test (snd (entries ! i)) code"
  proof (intro allI impI)
    fix i assume "i < length entries"
    then have "Suc i < length ((lang, pattern) # entries)" by simp
    with "2.prems" have "\<not> test (snd (((lang, pattern) # entries) ! Suc i)) code" by blast
    then show "\<not> test (snd (entries ! i)) code" by simp
  qed
  with "2.IH" [OF no] no show ?case by simp
qed

text \<open>
  C10: \<open>detectLanguage\<close> is total and returns one of the eleven labels; the table is
  searched in the order python, java, cpp, javascript, csharp, ruby, php, swift, go,
  rust, and the label returned is that of the first pattern that matches (\<open>unknown\<close>
  when none does); in particular code that matches both the python and the ruby
  pattern is labelled python.
\<close>

theorem detectLanguage_total_first_match:
  "detectLanguage code \<in> set [''python'', ''java'', ''cpp'', ''javascript'', ''csharp'',
       ''ruby'', ''php'', ''swift'', ''go'', ''rust'', ''unknown'']
   \<and> map fst languagePatterns = [''python'', ''java'', ''cpp'', ''javascript'', ''csharp'',
       ''ruby'', ''php'', ''swift'', ''go'', ''rust'']
   \<and> (\<forall>i<length languagePatterns.
         test (snd (languagePatterns ! i)) code \<and>
         (\<forall>j<i. \<not> test (snd (languagePatterns ! j)) code) \<longrightarrow>
         detectLanguage code = fst (languagePatterns ! i))
   \<and> ((\<forall>i<length languagePatterns. \<not> test (snd (languagePatterns ! i)) code) \<longrightarrow>
         detectLanguage code = ''unknown'')
   \<and> (test python_pattern code \<and> test ruby_pattern code \<longrightarrow> detectLanguage code = ''python'')"
proof (intro conjI)
  have "detectLanguage code \<in> insert ''unknown'' (fst ` set languagePatterns)"
    unfolding detectLanguage_def by (rule first_match_range)
  then show "detectLanguage code \<in> set [''python'', ''java'', ''cpp'', ''javascript'', ''csharp'',
       ''ruby'', ''php'', ''swift'', ''go'', ''rust'', ''unknown'']"
    by (auto simp: languagePatterns_def)
  show "map fst languagePatterns = [''python'', ''java'', ''cpp'', ''javascript'', ''csharp'',
       ''ruby'', ''php'', ''swift'', ''go'', ''rust'']"
    by (simp add: languagePatterns_def)
  show "\<forall>i<length languagePatterns.
         test (snd (languagePatterns ! i)) code \<and>
         (\<forall>j<i. \<not> test (snd (languagePatterns ! j)) code) \<longrightarrow>
         detectLanguage code = fst (languagePatterns ! i)"
    unfolding detectLanguage_def using first_match_first by blast
  show "(\<forall>i<length languagePatterns. \<not> test (snd (languagePatterns ! i)) code) \<longrightarrow>
         detectLanguage code = ''unknown''"
    unfolding detectLanguage_def using first_match_none by blast
  show "test python_pattern code \<and> test ruby_pattern code \<longrightarrow> detectLanguage code = ''python''"
    by (simp add: detectLanguage_def languagePatterns_def)
qed

lemmas pattern_defs = python_pattern_def java_pattern_def cpp_pattern_def
  javascript_pattern_def csharp_pattern_def ruby_pattern_def php_pattern_def
  swift_pattern_def go_pattern_def rust_pattern_def
  Plus_def str_def cu_def is_space_def is_word_def is_dot_def

text \<open>
  The theorem at three inputs: \<open>def f(\<close> matches the python and the ruby pattern and
  is labelled python; \<open>fn main(\<close> matches the last pattern only; \<open>x = 1\<close> matches none.
\<close>

theorem detectLanguage_total_first_match_witness:
  "test python_pattern (str ''def f('') \<and> test ruby_pattern (str ''def f('') \<and>
   detectLanguage (str ''def f('') = ''python'' \<and>
   detectLanguage (str ''fn main('') = ''rust'' \<and>
   detectLanguage (str ''x = 1'') = ''unknown''"
proof -
  have py: "test python_pattern (str ''def f('')" by (simp add: pattern_defs)
  have rb: "test ruby_pattern (str ''def f('')" by (simp add: pattern_defs)
  have rs: "test rust_pattern (str ''fn main('')" by (simp add: pattern_defs)
  have n0: "\<not> test python_pattern (str ''fn main('')" by (simp add: pattern_defs)
  have n1: "\<not> test java_pattern (str ''fn main('')" by (simp add: pattern_defs)
  have n2: "\<not> test cpp_pattern (str ''fn main('')" by (simp add: pattern_defs)
  have n3: "\<not> test javascript_pattern (str ''fn main('')" by (simp add: pattern_defs)
  have n4: "\<not> test csharp_pattern (str ''fn main('')" by (simp add: pattern_defs)
  have n5: "\<not> test ruby_pattern (str ''fn main('')" by (simp add: pattern_defs)
  have n6: "\<not> test php_pattern (str ''fn main('')" by (simp add: pattern_defs)
  have n7: "\<not> test swift_pattern (str ''fn main('')" by (simp add: pattern_defs)
  have n8: "\<not> test go_pattern (str ''fn main('')" by (simp add: pattern_defs)
  have u0: "\<not> test python_pattern (str ''x = 1'')" by (simp add: pattern_defs)
  have u1: "\<not> test java_pattern (str ''x = 1'')" by (simp add: pattern_defs)
  have u2: "\<not> test cpp_pattern (str ''x = 1'')" by (simp add: pattern_defs)
  have u3: "\<not> test javascript_pattern (str ''x = 1'')" by (simp add: pattern_defs)
  have u4: "\<not> test csharp_pattern (str ''x = 1'')" by (simp add: pattern_defs)
  have u5: "\<not> test ruby_pattern (str ''x = 1'')" by (simp add: pattern_defs)
  have u6: "\<not> test php_pattern (str ''x = 1'')" by (simp add: pattern_defs)
  have u7: "\<not> test swift_pattern (str ''x = 1'')" by (simp add: pattern_defs)
  have u8: "\<not> test go_pattern (str ''x = 1'')" by (simp add: pattern_defs)
  have u9: "\<not> test rust_pattern (str ''x = 1'')" by (simp add: pattern_defs)
  have len: "length languagePatterns = Suc (Suc (Suc (Suc (Suc (Suc (Suc (Suc (Suc (Suc 0)))))))))"
    by (simp add: languagePatterns_def)
  have nine: "(9::nat) = Suc (Suc (Suc (Suc (Suc (Suc (Suc (Suc (Suc 0))))))))" by simp
  have before: "\<forall>j<9. \<not> test (snd (languagePatterns ! j)) (str ''fn main('')"
    unfolding nine using n0 n1 n2 n3 n4 n5 n6 n7 n8
    by (simp add: languagePatterns_def All_less_Suc)
  have at9: "test (snd (languagePatterns ! 9)) (str ''fn main('')"
    unfolding nine using rs by (simp add: languagePatterns_def)
  have lt: "9 < length languagePatterns" by (simp add: languagePatterns_def)
  have none: "\<forall>i<length languagePatterns. \<not> test (snd (languagePatterns ! i)) (str ''x = 1'')"
    unfolding len using u0 u1 u2 u3 u4 u5 u6 u7 u8 u9
    by (simp add: languagePatterns_def All_less_Suc)
  have l9: "fst (languagePatterns ! 9) = ''rust''"
    unfolding nine by (simp add: languagePatterns_def)
  from detectLanguage_total_first_match [of "str ''def f(''"] py rb
  have a: "detectLanguage (str ''def f('') = ''python''" by blast
  from detectLanguage_total_first_match [of "str ''fn main(''"] lt at9 before
  have "detectLanguage (str ''fn main('') = fst (languagePatterns ! 9)" by blast
  with l9 have b: "detectLanguage (str ''fn main('') = ''rust''" by simp
  from detectLanguage_total_first_match [of "str ''x = 1''"] none
  have c: "detectLanguage (str ''x = 1'') = ''unknown''" by blast
  from py rb a b c show ?thesis by blast
qed

section \<open>\<open>formatCode\<close>: what it returns\<close>

text \<open>
  Both variants return the input exactly unchanged when no formatter is selected for
  the language and when the formatter raises an error, and the output of the tool
  they selected when it succeeds (trimmed, in the variant that runs a command); so the
  result is always that output or the input.
\<close>

lemma formatCode_cases:
  "(formatCode prettier_format code language = code \<or>
      prettier_format code = Inr (formatCode prettier_format code language))
   \<and> (language \<noteq> ''javascript'' \<and> language \<noteq> ''typescript'' \<longrightarrow>
        formatCode prettier_format code language = code)
   \<and> (prettier_format code = Inl e \<longrightarrow> formatCode prettier_format code language = code)
   \<and> ((language = ''javascript'' \<or> language = ''typescript'') \<and>
        prettier_format code = Inr formatted \<longrightarrow>
        formatCode prettier_format code language = formatted)
   \<and> (formatCode_exec exec code language = code \<or>
        (\<exists>command stdout. formatter_command language = Some command \<and>
           exec command code = Inr stdout \<and> formatCode_exec exec code language = trim stdout))
   \<and> (formatter_command language = None \<longrightarrow> formatCode_exec exec code language = code)
   \<and> (formatter_command language = Some command' \<and> exec command' code = Inl e' \<longrightarrow>
        formatCode_exec exec code language = code)
   \<and> (formatter_command language = Some command' \<and> exec command' code = Inr stdout' \<longrightarrow>
        formatCode_exec exec code language = trim stdout')"
proof (intro conjI impI)
  show "formatCode prettier_format code language = code \<or>
      prettier_format code = Inr (formatCode prettier_format code language)"
    by (cases "prettier_format code") (simp_all add: formatCode_def)
  show "formatCode prettier_format code language = code"
    if "language \<noteq> ''javascript'' \<and> language \<noteq> ''typescript''"
    using that by (simp add: formatCode_def)
  show "formatCode prettier_format code language = code" if "prettier_format code = Inl e"
    using that by (simp add: formatCode_def)
  show "formatCode prettier_format code language = formatted"
    if "(language = ''javascript'' \<or> language = ''typescript'') \<and>
        prettier_format code = Inr formatted"
    using that by (auto simp: formatCode_def)
  show "formatCode_exec exec code language = code \<or>
        (\<exists>command stdout. formatter_command language = Some command \<and>
           exec command code = Inr stdout \<and> formatCode_exec exec code language = trim stdout)"
  proof (cases "formatter_command language")
    case None
    then show ?thesis by (simp add: formatCode_exec_def)
  next
    case (Some command)
    then show ?thesis
      by (cases "exec command code") (simp_all add: formatCode_exec_def)
  qed
  show "formatCode_exec exec code language = code" if "formatter_command language = None"
    using that by (simp add: formatCode_exec_def)
  show "formatCode_exec exec code language = code"
    if "formatter_command language = Some command' \<and> exec command' code = Inl e'"
    using that by (simp add: formatCode_exec_def)
  show "formatCode_exec exec code language = trim stdout'"
    if "formatter_command language = Some command' \<and> exec command' code = Inr stdout'"
    using that by (simp add: formatCode_exec_def)
qed

text \<open>
  C9: the variant that runs a command does not keep to "the formatted code or the
  input unchanged".  For \<open>ruby\<close> and \<open>php\<close> the command of the table is a syntax
  check (\<open>ruby -c\<close>, \<open>php -l\<close>), not a formatter, and when the check succeeds
  \<open>formatCode\<close> returns what the check printed, trimmed: a report such as
  \<open>Syntax OK\<close>, which is neither formatted code nor the input.
\<close>

theorem formatCode_exec_syntax_check:
  "formatter_command ''ruby'' = Some ''ruby -c'' \<and>
   formatter_command ''php'' = Some ''php -l'' \<and>
   (exec ''ruby -c'' code = Inr report \<longrightarrow> formatCode_exec exec code ''ruby'' = trim report) \<and>
   (exec ''php -l'' code = Inr report \<longrightarrow> formatCode_exec exec code ''php'' = trim report)"
proof (intro conjI impI)
  show ruby: "formatter_command ''ruby'' = Some ''ruby -c''"
    by (simp add: formatter_command_def)
  show php: "formatter_command ''php'' = Some ''php -l''"
    by (simp add: formatter_command_def)
  show "formatCode_exec exec code ''ruby'' = trim report" if "exec ''ruby -c'' code = Inr report"
    using that ruby by (simp add: formatCode_exec_def)
  show "formatCode_exec exec code ''php'' = trim report" if "exec ''php -l'' code = Inr report"
    using that php by (simp add: formatCode_exec_def)
qed

text \<open>
  The theorem on the Ruby program \<open>puts 1\<close>: the result is \<open>Syntax OK\<close>, not the
  program.
\<close>

theorem formatCode_exec_syntax_check_witness:
  "syntax_checkers ''ruby -c'' (str ''puts 1'') = Inr (str ''Syntax OK'' @ [0x0A]) \<and>
   formatCode_exec syntax_checkers (str ''puts 1'') ''ruby'' = str ''Syntax OK'' \<and>
   str ''Syntax OK'' \<noteq> str ''puts 1''"
proof -
  have run: "syntax_checkers ''ruby -c'' (str ''puts 1'') = Inr (str ''Syntax OK'' @ [0x0A])"
    by (simp add: syntax_checkers_def)
  have trimmed: "trim (str ''Syntax OK'' @ [0x0A]) = str ''Syntax OK''"
    by (simp add: trim_def str_def cu_def is_space_def)
  from run formatCode_exec_syntax_check
    [where exec = syntax_checkers and code = "str ''puts 1''"
       and report = "str ''Syntax OK'' @ [0x0A]"]
  have "formatCode_exec syntax_checkers (str ''puts 1'') ''ruby''
      = trim (str ''Syntax OK'' @ [0x0A])"
    by blast
  with trimmed have result: "formatCode_exec syntax_checkers (str ''puts 1'') ''ruby''
      = str ''Syntax OK''"
    by simp
  have differ: "str ''Syntax OK'' \<noteq> str ''puts 1''"
    by (simp add: str_def)
  from run result differ show ?thesis by simp
qed

section \<open>The message handler\<close>

lemma drop_min_length: "drop (min n (length xs)) xs = drop n xs"
  by (cases "n \<le> length xs") (simp_all add: min_def)

text \<open>
  C8: the handler acts on two commands only.  A message whose command is neither
  \<open>accept\<close> nor \<open>reject\<close> leaves the host as it is (no replacement, no disposal);
  \<open>accept\<close> applies one edit and disposes of the panel; \<open>reject\<close> applies none and
  disposes of the panel.
\<close>

theorem onDidReceiveMessage_two_commands:
  "(msg_command message \<noteq> Some ''accept'' \<and> msg_command message \<noteq> Some ''reject'' \<longrightarrow>
      onDidReceiveMessage userCode code message h = h)
   \<and> (msg_command message = Some ''accept'' \<longrightarrow>
        panel (onDidReceiveMessage userCode code message h) = Disposed \<and>
        applied_edits (onDidReceiveMessage userCode code message h) =
          applied_edits h @ [(0, min (length userCode) (length (document h)), code)])
   \<and> (msg_command message = Some ''reject'' \<longrightarrow>
        panel (onDidReceiveMessage userCode code message h) = Disposed \<and>
        applied_edits (onDidReceiveMessage userCode code message h) = applied_edits h)"
proof (intro conjI impI)
  assume "msg_command message \<noteq> Some ''accept'' \<and> msg_command message \<noteq> Some ''reject''"
  then show "onDidReceiveMessage userCode code message h = h"
    by (simp add: onDidReceiveMessage_def)
next
  assume accepted: "msg_command message = Some ''accept''"
  then show "panel (onDidReceiveMessage userCode code message h) = Disposed"
    by (simp add: onDidReceiveMessage_def Let_def)
  from accepted show "applied_edits (onDidReceiveMessage userCode code message h) =
      applied_edits h @ [(0, min (length userCode) (length (document h)), code)]"
    by (simp add: onDidReceiveMessage_def positionAt_def Let_def)
next
  assume rejected: "msg_command message = Some ''reject''"
  then show "panel (onDidReceiveMessage userCode code message h) = Disposed"
    by (simp add: onDidReceiveMessage_def)
  from rejected show "applied_edits (onDidReceiveMessage userCode code message h) = applied_edits h"
    by (simp add: onDidReceiveMessage_def)
qed

text \<open>
  The theorem at a message with another command, at one without a command, at an
  accept and at a reject.
\<close>

theorem onDidReceiveMessage_two_commands_witness:
  "onDidReceiveMessage (str ''x = 1'') (str ''x = 2'')
      \<lparr>msg_command = Some ''save'', msg_code = Some (str ''x = 3'')\<rparr> review_host = review_host \<and>
   onDidReceiveMessage (str ''x = 1'') (str ''x = 2'')
      \<lparr>msg_command = None, msg_code = Some (str ''x = 3'')\<rparr> review_host = review_host \<and>
   panel (onDidReceiveMessage (str ''x = 1'') (str ''x = 2'')
      \<lparr>msg_command = Some ''accept'', msg_code = Some (str ''x = 2'')\<rparr> review_host) = Disposed \<and>
   panel (onDidReceiveMessage (str ''x = 1'') (str ''x = 2'')
      \<lparr>msg_command = Some ''reject'', msg_code = None\<rparr> review_host) = Disposed"
proof -
  have a: "onDidReceiveMessage (str ''x = 1'') (str ''x = 2'')
      \<lparr>msg_command = Some ''save'', msg_code = Some (str ''x = 3'')\<rparr> review_host = review_host"
    using onDidReceiveMessage_two_commands
      [where message = "\<lparr>msg_command = Some ''save'', msg_code = Some (str ''x = 3'')\<rparr>"]
    by simp
  have a': "onDidReceiveMessage (str ''x = 1'') (str ''x = 2'')
      \<lparr>msg_command = None, msg_code = Some (str ''x = 3'')\<rparr> review_host = review_host"
    using onDidReceiveMessage_two_commands
      [where message = "\<lparr>msg_command = None, msg_code = Some (str ''x = 3'')\<rparr>"]
    by simp
  have b: "panel (onDidReceiveMessage (str ''x = 1'') (str ''x = 2'')
      \<lparr>msg_command = Some ''accept'', msg_code = Some (str ''x = 2'')\<rparr> review_host) = Disposed"
    using onDidReceiveMessage_two_commands
      [where message = "\<lparr>msg_command = Some ''accept'', msg_code = Some (str ''x = 2'')\<rparr>"]
    by simp
  have c: "panel (onDidReceiveMessage (str ''x = 1'') (str ''x = 2'')
      \<lparr>msg_command = Some ''reject'', msg_code = None\<rparr> review_host) = Disposed"
    using onDidReceiveMessage_two_commands
      [where message = "\<lparr>msg_command = Some ''reject'', msg_code = None\<rparr>"]
    by simp
  from a a' b c show ?thesis by simp
qed

text \<open>
  C5: a reject applies no edit and leaves the document as it was, for every document
  and every proposed code, also through a whole review cycle (the command, then the
  reject); and when the optimization fails (the service throws) the document is left
  as it was, no edit is applied, and no later message changes it.
\<close>

theorem reject_leaves_original:
  "(msg_command message = Some ''reject'' \<longrightarrow>
      document (onDidReceiveMessage userCode code message h) = document h \<and>
      applied_edits (onDidReceiveMessage userCode code message h) = applied_edits h)
   \<and> document (deliver reject (optimizeCode getOptimizedCode h)) = document h
   \<and> applied_edits (deliver reject (optimizeCode getOptimizedCode h)) = applied_edits h
   \<and> (getOptimizedCode (document h) = Inl errorMessage \<and> panel h = NoPanel \<longrightarrow>
        document (optimizeCode getOptimizedCode h) = document h \<and>
        applied_edits (optimizeCode getOptimizedCode h) = applied_edits h \<and>
        document (deliver message (optimizeCode getOptimizedCode h)) = document h \<and>
        applied_edits (deliver message (optimizeCode getOptimizedCode h)) = applied_edits h)"
  by (auto simp: onDidReceiveMessage_def deliver_def optimizeCode_def reject_def Let_def
           split: panel.splits sum.splits prod.splits)

text \<open>
  The theorem on the sample document: a rejected proposal, and a failed attempt
  followed by an accept message.
\<close>

theorem reject_leaves_original_witness:
  "document (onDidReceiveMessage (str ''x = 1'') (str ''x = 2'') reject review_host) = str ''x = 1'' \<and>
   document (deliver reject (optimizeCode (\<lambda>c. Inr (str ''x = 2'', str ''faster'')) idle_host))
     = str ''x = 1'' \<and>
   document (deliver \<lparr>msg_command = Some ''accept'', msg_code = Some (str ''x = 2'')\<rparr>
               (optimizeCode (\<lambda>c. Inl ''service unavailable'') idle_host)) = str ''x = 1''"
proof -
  have a: "document (onDidReceiveMessage (str ''x = 1'') (str ''x = 2'') reject review_host)
      = document review_host"
    using reject_leaves_original [where message = reject and h = review_host]
    by (simp add: reject_def)
  have b: "document (deliver reject (optimizeCode (\<lambda>c. Inr (str ''x = 2'', str ''faster'')) idle_host))
      = document idle_host"
    using reject_leaves_original
      [where getOptimizedCode = "\<lambda>c. Inr (str ''x = 2'', str ''faster'')" and h = idle_host]
    by simp
  have c: "document (deliver \<lparr>msg_command = Some ''accept'', msg_code = Some (str ''x = 2'')\<rparr>
               (optimizeCode (\<lambda>c. Inl ''service unavailable'') idle_host)) = document idle_host"
    using reject_leaves_original
      [where getOptimizedCode = "\<lambda>c. Inl ''service unavailable''" and h = idle_host
         and errorMessage = "''service unavailable''"
         and message = "\<lparr>msg_command = Some ''accept'', msg_code = Some (str ''x = 2'')\<rparr>"]
    by (simp add: idle_host_def)
  from a b c show ?thesis by (simp add: idle_host_def review_host_def)
qed

text \<open>
  C2 (as amended): on the accept decision the script posts a message that carries
  exactly the text the modified view displays at that moment; the handler does not
  read it: the edit it applies replaces the range of the original text by the
  optimized code that \<open>getOptimizedCode\<close> returned for this review cycle, so a
  document that still holds the original text becomes that code.
\<close>

theorem accept_emits_code:
  "accept w = Inr message \<longrightarrow>
     msg_command message = Some ''accept'' \<and>
     (\<exists>children. optimized_code w = Some children \<and> msg_code message = Some (innerText children)) \<and>
     applied_edits (onDidReceiveMessage userCode code message h) =
        applied_edits h @ [(0, min (length userCode) (length (document h)), code)] \<and>
     document (onDidReceiveMessage userCode code message h) =
        code @ drop (length userCode) (document h) \<and>
     (document h = userCode \<longrightarrow> document (onDidReceiveMessage userCode code message h) = code)"
  by (auto simp: accept_def onDidReceiveMessage_def positionAt_def replace_range_def Let_def
           drop_min_length split: option.splits)

text \<open>
  The theorem on the view that shows the proposal \<open>x = 2\<close> as rendered: the document
  \<open>x = 1\<close> becomes \<open>x = 2\<close>.
\<close>

theorem accept_emits_code_witness:
  "accept fresh_view = Inr \<lparr>msg_command = Some ''accept'', msg_code = Some (str ''x = 2'')\<rparr> \<and>
   document (onDidReceiveMessage (str ''x = 1'') (str ''x = 2'')
      \<lparr>msg_command = Some ''accept'', msg_code = Some (str ''x = 2'')\<rparr> review_host) = str ''x = 2''"
proof -
  have a: "accept fresh_view = Inr \<lparr>msg_command = Some ''accept'', msg_code = Some (str ''x = 2'')\<rparr>"
    by (simp add: accept_def fresh_view_def innerText_def)
  have d: "document review_host = str ''x = 1''"
    by (simp add: review_host_def)
  from a d accept_emits_code
    [where w = fresh_view and h = review_host and userCode = "str ''x = 1''"
       and code = "str ''x = 2''"
       and message = "\<lparr>msg_command = Some ''accept'', msg_code = Some (str ''x = 2'')\<rparr>"]
  have "document (onDidReceiveMessage (str ''x = 1'') (str ''x = 2'')
      \<lparr>msg_command = Some ''accept'', msg_code = Some (str ''x = 2'')\<rparr> review_host) = str ''x = 2''"
    by blast
  with a show ?thesis by simp
qed

text \<open>
  C2 as stated fails: the view displays \<open>x = 3\<close> (the reviewer changed the text after
  rendering), the accept message carries \<open>x = 3\<close>, and the document receives the
  proposal \<open>x = 2\<close>.
\<close>

theorem accept_displayed_text_counterexample:
  "accept edited_view = Inr \<lparr>msg_command = Some ''accept'', msg_code = Some (str ''x = 3'')\<rparr> \<and>
   document (deliver \<lparr>msg_command = Some ''accept'', msg_code = Some (str ''x = 3'')\<rparr> review_host)
     = str ''x = 2'' \<and>
   str ''x = 2'' \<noteq> str ''x = 3''"
  by (simp add: accept_def edited_view_def review_host_def deliver_def onDidReceiveMessage_def
        positionAt_def replace_range_def innerText_def str_def cu_def)

text \<open>
  The same without any manual change, when the spans of every class are displayed:
  after \<open>highlightChanges\<close> on \<open>x = 1\<close> and \<open>x = 2\<close> the element holds the removed
  and the added line, the accept message carries both, and the document receives the
  proposal alone.
\<close>

lemma accept_after_highlightChanges:
  "highlightChanges (JSString (str ''x = 1'')) (JSString (str ''x = 2'')) fresh_view
     = Inr \<lparr>original = str ''x = 1'',
            optimized_code = Some [SpanNode (str ''x = 1'') [''hl-removed''],
                                   SpanNode (str ''x = 2'') [''hl-added'']]\<rparr> \<and>
   accept \<lparr>original = str ''x = 1'',
           optimized_code = Some [SpanNode (str ''x = 1'') [''hl-removed''],
                                  SpanNode (str ''x = 2'') [''hl-added'']]\<rparr>
     = Inr \<lparr>msg_command = Some ''accept'', msg_code = Some (str ''x = 1x = 2'')\<rparr> \<and>
   document (deliver \<lparr>msg_command = Some ''accept'', msg_code = Some (str ''x = 1x = 2'')\<rparr>
               review_host) = str ''x = 2''"
  by (simp add: highlightChanges_def render_def computeDiff_def fresh_view_def appendPart_def
        highlight_class_def mk_change_def kind_of_def accept_def innerText_def review_host_def
        deliver_def onDidReceiveMessage_def positionAt_def replace_range_def str_def cu_def)

text \<open>
  Through a whole review cycle: the code that the service returned is the code the
  handler closes over, so an accept on the untouched document writes exactly it,
  whatever the message carries; and the command itself never changes the document.
\<close>

lemma accept_through_review_cycle:
  "editor_active h \<Longrightarrow> getOptimizedCode (document h) = Inr (code, explanation) \<Longrightarrow>
   msg_command message = Some ''accept'' \<Longrightarrow>
   document (deliver message (optimizeCode getOptimizedCode h)) = code"
  by (simp add: optimizeCode_def deliver_def onDidReceiveMessage_def positionAt_def
        replace_range_def Let_def)

lemma optimizeCode_keeps_document:
  "document (optimizeCode getOptimizedCode h) = document h \<and>
   applied_edits (optimizeCode getOptimizedCode h) = applied_edits h"
  by (auto simp: optimizeCode_def Let_def split: sum.splits prod.splits)

section \<open>Rendering\<close>

lemma foldl_appendPart:
  "foldl appendPart acc diff =
     acc @ map (\<lambda>part. SpanNode (part_value part) [highlight_class part]) diff"
  by (induction diff arbitrary: acc) (simp_all add: appendPart_def)

text \<open>
  C7: rendering is idempotent: rendering a segment sequence on the display that the
  same rendering produced gives that display again.  The element then holds one span
  per segment, in order, each with exactly one class, which is \<open>hl-added\<close>,
  \<open>hl-removed\<close> or \<open>hl-unchanged\<close> according to the kind of the segment and to
  nothing else; the rest of the display is untouched, and the only failure is the
  missing element.
\<close>

theorem render_idempotent:
  "(render diff w = Inr w' \<longrightarrow>
      render diff w' = Inr w' \<and>
      optimized_code w' =
        Some (map (\<lambda>part. SpanNode (part_value part) [highlight_class part]) diff) \<and>
      original w' = original w)
   \<and> (render diff w = Inl e \<longrightarrow> optimized_code w = None \<and> e = TypeError)
   \<and> highlight_class part \<in> {''hl-added'', ''hl-removed'', ''hl-unchanged''}
   \<and> (highlight_class part = ''hl-added'' \<longleftrightarrow> kind_of part = Added)
   \<and> (highlight_class part = ''hl-removed'' \<longleftrightarrow> kind_of part = Removed)
   \<and> (highlight_class part = ''hl-unchanged'' \<longleftrightarrow> kind_of part = Unchanged)"
proof (intro conjI impI)
  assume r: "render diff w = Inr w'"
  then obtain children where c: "optimized_code w = Some children"
    by (cases "optimized_code w") (simp_all add: render_def)
  with r have w': "w' = w\<lparr>optimized_code := Some (foldl appendPart [] diff)\<rparr>"
    by (simp add: render_def)
  then show "render diff w' = Inr w'"
    by (simp add: render_def)
  from w' show "optimized_code w' =
      Some (map (\<lambda>part. SpanNode (part_value part) [highlight_class part]) diff)"
    by (simp add: foldl_appendPart)
  from w' show "original w' = original w"
    by simp
next
  assume "render diff w = Inl e"
  then show "optimized_code w = None" "e = TypeError"
    by (cases "optimized_code w"; simp add: render_def)+
next
  show "highlight_class part \<in> {''hl-added'', ''hl-removed'', ''hl-unchanged''}"
    by (simp add: highlight_class_def)
  show "highlight_class part = ''hl-added'' \<longleftrightarrow> kind_of part = Added"
    by (simp add: highlight_class_def kind_of_def)
  show "highlight_class part = ''hl-removed'' \<longleftrightarrow> kind_of part = Removed"
    by (simp add: highlight_class_def kind_of_def)
  show "highlight_class part = ''hl-unchanged'' \<longleftrightarrow> kind_of part = Unchanged"
    by (simp add: highlight_class_def kind_of_def)
qed

text \<open>
  The theorem on the sample view, with a removed and an added segment, and on a page
  without the element.
\<close>

theorem render_idempotent_witness:
  "render [mk_change Removed (str ''x = 1''), mk_change Added (str ''x = 2'')] fresh_view
     = Inr \<lparr>original = str ''x = 1'',
            optimized_code = Some [SpanNode (str ''x = 1'') [''hl-removed''],
                                   SpanNode (str ''x = 2'') [''hl-added'']]\<rparr> \<and>
   render [mk_change Removed (str ''x = 1''), mk_change Added (str ''x = 2'')]
      \<lparr>original = str ''x = 1'',
       optimized_code = Some [SpanNode (str ''x = 1'') [''hl-removed''],
                              SpanNode (str ''x = 2'') [''hl-added'']]\<rparr>
     = Inr \<lparr>original = str ''x = 1'',
            optimized_code = Some [SpanNode (str ''x = 1'') [''hl-removed''],
                                   SpanNode (str ''x = 2'') [''hl-added'']]\<rparr> \<and>
   render [mk_change Added (str ''x = 2'')] \<lparr>original = str ''x = 2'', optimized_code = None\<rparr>
     = Inl TypeError"
proof -
  let ?diff = "[mk_change Removed (str ''x = 1''), mk_change Added (str ''x = 2'')]"
  let ?w' = "\<lparr>original = str ''x = 1'',
            optimized_code = Some [SpanNode (str ''x = 1'') [''hl-removed''],
                                   SpanNode (str ''x = 2'') [''hl-added'']]\<rparr>"
  have a: "render ?diff fresh_view = Inr ?w'"
    by (simp add: render_def fresh_view_def appendPart_def highlight_class_def mk_change_def)
  from a render_idempotent [where diff = ?diff and w = fresh_view and w' = ?w']
  have b: "render ?diff ?w' = Inr ?w'" by blast
  have c: "render [mk_change Added (str ''x = 2'')] \<lparr>original = str ''x = 2'', optimized_code = None\<rparr>
     = Inl TypeError"
    by (simp add: render_def)
  from a b c show ?thesis by simp
qed

text \<open>
  C6: with \<open>undefined\<close> for the original or for the modified text the operation fails
  with an \<open>InputError\<close>, and the result carries no display: nothing was rendered.  On
  two texts the diff returns its segments, it does not fail.
\<close>

theorem highlightChanges_input_error:
  "highlightChanges JSUndefined optimizedCode w = Inl InputError \<and>
   highlightChanges originalCode JSUndefined w = Inl InputError \<and>
   diffLines (JSString A) (JSString B) = Inr (computeDiff A B)"
proof -
  have "diffLines originalCode JSUndefined = Inl InputError"
    by (cases originalCode) simp_all
  then show ?thesis by (simp add: highlightChanges_def)
qed

text \<open>The theorem on the sample view.\<close>

theorem highlightChanges_input_error_witness:
  "highlightChanges JSUndefined (JSString (str ''x = 2'')) fresh_view = Inl InputError \<and>
   highlightChanges (JSString (str ''x = 1'')) JSUndefined fresh_view = Inl InputError \<and>
   diffLines (JSString (str ''x = 1'')) (JSString (str ''x = 2''))
     = Inr [\<lparr>part_value = str ''x = 1'', added = False, removed = True\<rparr>,
            \<lparr>part_value = str ''x = 2'', added = True, removed = False\<rparr>]"
proof -
  have "computeDiff (str ''x = 1'') (str ''x = 2'')
     = [\<lparr>part_value = str ''x = 1'', added = False, removed = True\<rparr>,
        \<lparr>part_value = str ''x = 2'', added = True, removed = False\<rparr>]"
    by (simp add: computeDiff_def str_def cu_def mk_change_def kind_of_def)
  with highlightChanges_input_error
    [where optimizedCode = "JSString (str ''x = 2'')" and originalCode = "JSString (str ''x = 1'')"
       and w = fresh_view and A = "str ''x = 1''" and B = "str ''x = 2''"]
  show ?thesis by simp
qed

section \<open>The line diff: lines, edit script, runs\<close>

lemma concat_tokenize: "concat (tokenize s) = s"
  by (induction s) (auto split: list.splits)

lemma tokenize_eq_Nil: "tokenize s = [] \<longleftrightarrow> s = []"
  by (cases s) (auto split: list.splits)

lemma kind_of_mk_change: "kind_of (mk_change k v) = k"
  by (cases k) (simp_all add: kind_of_def mk_change_def)

lemma kind_of_update: "kind_of (part\<lparr>part_value := v\<rparr>) = kind_of part"
  by (simp add: kind_of_def)

lemma part_value_mk_change: "part_value (mk_change k v) = v"
  by (simp add: mk_change_def)

lemma mk_change_update: "(mk_change k v)\<lparr>part_value := u\<rparr> = mk_change k u"
  by (simp add: mk_change_def)

text \<open>The lines that are not removed are the modified lines; those not added, the original.\<close>

lemma edit_script_modified:
  "map snd (filter (\<lambda>e. fst e \<noteq> Removed) (edit_script xs ys)) = ys"
  by (induction xs ys rule: edit_script.induct) (simp_all add: comp_def)

lemma edit_script_original:
  "map snd (filter (\<lambda>e. fst e \<noteq> Added) (edit_script xs ys)) = xs"
  by (induction xs ys rule: edit_script.induct) (simp_all add: comp_def)


text \<open>The script keeps as many lines as a longest common subsequence has.\<close>

lemma edit_script_unchanged:
  "length (filter (\<lambda>e. fst e = Unchanged) (edit_script xs ys)) = lcs_length xs ys"
  by (induction xs ys rule: edit_script.induct) (simp_all add: comp_def)

lemma build_values_filter:
  "concat (map part_value (filter (\<lambda>p. P (kind_of p)) (build_values es)))
     = concat (map snd (filter (\<lambda>e. P (fst e)) es))"
proof (induction es)
  case Nil
  then show ?case by simp
next
  case (Cons e es)
  obtain k l where e: "e = (k, l)" by (cases e)
  show ?case
  proof (cases "build_values es")
    case Nil
    with Cons e show ?thesis
      by (simp add: kind_of_mk_change part_value_mk_change)
  next
    case (Cons part parts)
    with Cons.IH e show ?thesis
      by (auto simp: kind_of_mk_change part_value_mk_change kind_of_update)
  qed
qed

text \<open>The runs are maximal: two neighbouring segments differ in kind.\<close>

lemma build_values_maximal: "distinct_adj (map kind_of (build_values es))"
proof (induction es)
  case Nil
  then show ?case by simp
next
  case (Cons e es)
  obtain k l where e: "e = (k, l)" by (cases e)
  show ?case
  proof (cases "build_values es")
    case Nil
    with e show ?thesis by simp
  next
    case (Cons part parts)
    with Cons.IH e show ?thesis
      by (auto simp: kind_of_mk_change kind_of_update)
  qed
qed

lemma build_values_run:
  "ls \<noteq> [] \<Longrightarrow> build_values (map (Pair k) ls) = [mk_change k (concat ls)]"
proof (induction ls)
  case Nil
  then show ?case by simp
next
  case (Cons l ls)
  show ?case
  proof (cases "ls = []")
    case True
    then show ?thesis by simp
  next
    case False
    with Cons.IH have "build_values (map (Pair k) ls) = [mk_change k (concat ls)]" by simp
    then show ?thesis by (simp add: kind_of_mk_change mk_change_update part_value_mk_change)
  qed
qed

text \<open>The scenario of the specification: a line inserted between two lines.\<close>

lemma computeDiff_scenario:
  "computeDiff (str ''x = 1'' @ [0x0A] @ str ''y = 2'' @ [0x0A])
               (str ''x = 1'' @ [0x0A] @ str ''z = 3'' @ [0x0A] @ str ''y = 2'' @ [0x0A])
     = [mk_change Unchanged (str ''x = 1'' @ [0x0A]),
        mk_change Added (str ''z = 3'' @ [0x0A]),
        mk_change Unchanged (str ''y = 2'' @ [0x0A])]"
  by (simp add: computeDiff_def str_def cu_def mk_change_def kind_of_def)

text \<open>
  C1: for every pair of texts, the segments of kind unchanged or added, concatenated
  in order, are the modified text, and the segments of kind unchanged or removed,
  concatenated in order, are the original text.
\<close>

theorem computeDiff_reconstructs:
  "concat (map part_value (filter (\<lambda>p. kind_of p \<in> {Unchanged, Added}) (computeDiff A B))) = B \<and>
   concat (map part_value (filter (\<lambda>p. kind_of p \<in> {Unchanged, Removed}) (computeDiff A B))) = A"
proof
  have m: "(k \<in> {Unchanged, Added}) = (k \<noteq> Removed)" for k
    by (cases k) simp_all
  have "concat (map part_value (filter (\<lambda>p. kind_of p \<in> {Unchanged, Added}) (computeDiff A B)))
        = concat (map snd (filter (\<lambda>e. fst e \<in> {Unchanged, Added})
            (edit_script (tokenize A) (tokenize B))))"
    unfolding computeDiff_def by (rule build_values_filter)
  also have "\<dots> = concat (tokenize B)"
    unfolding m by (simp only: edit_script_modified)
  finally show "concat (map part_value
      (filter (\<lambda>p. kind_of p \<in> {Unchanged, Added}) (computeDiff A B))) = B"
    by (simp add: concat_tokenize)
  have o: "(k \<in> {Unchanged, Removed}) = (k \<noteq> Added)" for k
    by (cases k) simp_all
  have "concat (map part_value (filter (\<lambda>p. kind_of p \<in> {Unchanged, Removed}) (computeDiff A B)))
        = concat (map snd (filter (\<lambda>e. fst e \<in> {Unchanged, Removed})
            (edit_script (tokenize A) (tokenize B))))"
    unfolding computeDiff_def by (rule build_values_filter)
  also have "\<dots> = concat (tokenize A)"
    unfolding o by (simp only: edit_script_original)
  finally show "concat (map part_value
      (filter (\<lambda>p. kind_of p \<in> {Unchanged, Removed}) (computeDiff A B))) = A"
    by (simp add: concat_tokenize)
qed

text \<open>The theorem on a text of three lines, one of them replaced.\<close>

theorem computeDiff_reconstructs_witness:
  "concat (map part_value (filter (\<lambda>p. kind_of p \<in> {Unchanged, Added})
      (computeDiff (str ''a'' @ [0x0A] @ str ''b'' @ [0x0A] @ str ''c'')
                   (str ''a'' @ [0x0A] @ str ''d'' @ [0x0A] @ str ''c''))))
     = str ''a'' @ [0x0A] @ str ''d'' @ [0x0A] @ str ''c'' \<and>
   concat (map part_value (filter (\<lambda>p. kind_of p \<in> {Unchanged, Removed})
      (computeDiff (str ''a'' @ [0x0A] @ str ''b'' @ [0x0A] @ str ''c'')
                   (str ''a'' @ [0x0A] @ str ''d'' @ [0x0A] @ str ''c''))))
     = str ''a'' @ [0x0A] @ str ''b'' @ [0x0A] @ str ''c''"
  by (rule computeDiff_reconstructs)




text \<open>
  C4: when one text is empty and the other is not, the diff is a single segment that
  holds the whole non-empty text: added when the original is the empty one, removed
  when the modified is.
\<close>

theorem computeDiff_one_side_empty:
  "B \<noteq> [] \<Longrightarrow>
     computeDiff [] B = [\<lparr>part_value = B, added = True, removed = False\<rparr>] \<and>
     computeDiff B [] = [\<lparr>part_value = B, added = False, removed = True\<rparr>]"
proof -
  assume "B \<noteq> []"
  then have ne: "tokenize B \<noteq> []" by (simp add: tokenize_eq_Nil)
  then obtain l ls where t: "tokenize B = l # ls" by (cases "tokenize B") auto
  have a: "build_values (map (Pair Added) (tokenize B)) = [mk_change Added (concat (tokenize B))]"
    using ne by (rule build_values_run)
  have r: "build_values (map (Pair Removed) (tokenize B))
      = [mk_change Removed (concat (tokenize B))]"
    using ne by (rule build_values_run)
  have "edit_script (tokenize B) [] = map (Pair Removed) (tokenize B)"
    by (simp add: t)
  with a r show ?thesis
    by (simp add: computeDiff_def concat_tokenize mk_change_def)
qed

text \<open>The theorem on a text of two lines.\<close>

theorem computeDiff_one_side_empty_witness:
  "str ''x = 1'' @ [0x0A] @ str ''y = 2'' @ [0x0A] \<noteq> [] \<and>
   computeDiff [] (str ''x = 1'' @ [0x0A] @ str ''y = 2'' @ [0x0A])
     = [\<lparr>part_value = str ''x = 1'' @ [0x0A] @ str ''y = 2'' @ [0x0A],
          added = True, removed = False\<rparr>] \<and>
   computeDiff (str ''x = 1'' @ [0x0A] @ str ''y = 2'' @ [0x0A]) []
     = [\<lparr>part_value = str ''x = 1'' @ [0x0A] @ str ''y = 2'' @ [0x0A],
          added = False, removed = True\<rparr>]"
proof -
  have ne: "str ''x = 1'' @ [0x0A] @ str ''y = 2'' @ [0x0A] \<noteq> []" by (simp add: str_def)
  from ne computeDiff_one_side_empty [OF ne] show ?thesis by blast
qed

end
